theory Spec2Isabelle
  imports Main "HOL-Library.Sublist" "HOL-Library.Char_ord" "HOL-Library.List_Lexorder"
begin

section \<open>Yazbaka: the synchronisation decision engine of src/yazbaka.py\<close>

text \<open>
  The development embeds the pure core of the class \<open>Yazbaka\<close>: the change detector
  \<open>has_changed\<close>, the pair finder \<open>get_pairs\<close>, the retention gate
  \<open>conditional_snapshot\<close>, the two transfer planners, \<open>snapshot\<close> and the duration
  parser \<open>_get_timedelta\<close>. Every call of \<open>subprocess.run\<close> is taken as an argument:
  the functions receive the result the external command gave (return code, output lines,
  diagnostic text). Exceptions are values of the type \<open>error\<close>; a function that can raise
  returns \<open>error + 'a\<close>. Printing (the flags \<open>quiet\<close> and \<open>verbose\<close>) changes no result
  and is left out.

  Python strings are modelled as \<open>string\<close>; the functions below agree with Python on
  every code point below 256.
\<close>

subsection \<open>Errors, process results, arguments\<close>

datatype error =
    ZFSError string
  | NoMatchingSnapshots string  \<comment> \<open>a subclass of \<open>ZFSError\<close> in the source\<close>
  | PermissionError string
  | ValueError string
  | IndexError
  | AttributeError  \<comment> \<open>\<open>.group\<close> called on the \<open>None\<close> of a failed regex search\<close>
  | OverflowError

record proc =
  returncode :: int
  stdout :: "string list"  \<comment> \<open>\<open>res.stdout.splitlines()\<close>, each line decoded\<close>
  stderr :: string

text \<open>A \<open>timedelta\<close> is its total number of microseconds.\<close>

type_synonym timedelta = int

record args =
  source :: string
  destination :: string
  label :: string
  send :: string
  recv :: string
  omit :: "timedelta option"
  incremental :: bool
  full_incremental :: bool
  transfer_only :: bool
  no_omit_unchanged :: bool

subsection \<open>Python string primitives\<close>

definition TAB :: char where "TAB = CHR 0x09"
definition LF :: char where "LF = CHR 0x0A"

text \<open>\<open>s.find(sub)\<close>: the lowest index at which \<open>sub\<close> occurs in \<open>s\<close>, or \<open>-1\<close>.\<close>

fun py_find :: "string \<Rightarrow> string \<Rightarrow> int" where
  "py_find [] sub = (if sub = [] then 0 else -1)"
| "py_find (c # cs) sub =
     (if prefix sub (c # cs) then 0
      else (let r = py_find cs sub in if r < 0 then -1 else r + 1))"

text \<open>\<open>line.split("\t")\<close>.\<close>

fun split_tab :: "string \<Rightarrow> string list" where
  "split_tab [] = [[]]"
| "split_tab (c # cs) =
     (if c = TAB then [] # split_tab cs
      else (case split_tab cs of [] \<Rightarrow> [[c]] | w # ws \<Rightarrow> (c # w) # ws))"

definition is_digit :: "char \<Rightarrow> bool" where
  "is_digit c = (c \<in> set ''0123456789'')"

definition is_space :: "char \<Rightarrow> bool" where
  "is_space c = ((of_char c :: nat) \<in> {9, 10, 11, 12, 13, 28, 29, 30, 31, 32, 133, 160})"

definition digit_val :: "char \<Rightarrow> int" where
  "digit_val c = int (of_char c) - 48"

definition decimal :: "string \<Rightarrow> int" where
  "decimal ds = foldl (\<lambda>n c. 10 * n + digit_val c) 0 ds"

text \<open>Digits, with single underscores allowed between two digits.\<close>

fun digits_ok :: "string \<Rightarrow> bool" where
  "digits_ok [] = False"
| "digits_ok [c] = is_digit c"
| "digits_ok (c # d # r) =
     (is_digit c \<and> (if d = CHR ''_'' then digits_ok r else digits_ok (d # r)))"

definition strip :: "string \<Rightarrow> string" where
  "strip s = rev (dropWhile is_space (rev (dropWhile is_space s)))"

text \<open>
  \<open>int(s)\<close> in base 10: surrounding whitespace, an optional sign, digits. The message
  of the \<open>ValueError\<close> is given without the \<open>repr\<close> of the argument.
\<close>

definition py_int :: "string \<Rightarrow> error + int" where
  "py_int s =
     (let t = strip s;
          neg = (t \<noteq> [] \<and> hd t = CHR ''-'');
          body = (if t \<noteq> [] \<and> (hd t = CHR ''-'' \<or> hd t = CHR ''+'') then tl t else t)
      in if digits_ok body
         then Inr ((if neg then -1 else 1) * decimal (filter (\<lambda>c. c \<noteq> CHR ''_'') body))
         else Inl (ValueError ''invalid literal for int() with base 10''))"

subsection \<open>\<open>has_changed\<close> (lines 36-74)\<close>

text \<open>
  The tests the loop makes on a line, named: line 56 (a line of a nested dataset, skipped
  unless the send flags hold \<open>R\<close>), line 60 (the line names a snapshot), line 68 (the
  snapshot carries the configured label) and \<open>int(elements[2])\<close>.
\<close>

definition skipped :: "args \<Rightarrow> string \<Rightarrow> bool" where
  "skipped a line = (py_find line (source a @ ''/'') \<noteq> -1 \<and> CHR ''R'' \<notin> set (send a))"

definition is_boundary :: "string \<Rightarrow> bool" where
  "is_boundary line = (py_find line ''@'' \<noteq> -1)"

definition same_label :: "args \<Rightarrow> string \<Rightarrow> bool" where
  "same_label a line = (py_find line (CHR ''@'' # label a) \<noteq> -1)"

definition byte_count :: "string \<Rightarrow> error + int" where
  "byte_count line =
     (let elements = split_tab line
      in if length elements \<le> 2 then Inl IndexError else py_int (elements ! 2))"

text \<open>The \<open>for\<close> loop of lines 52-72 with its carry flag \<open>zero\<close>, and line 74.\<close>

fun has_changed_loop :: "args \<Rightarrow> string list \<Rightarrow> bool \<Rightarrow> error + bool" where
  "has_changed_loop a [] zero = Inr (\<not> zero)"
| "has_changed_loop a (line # rest) zero =
     (if skipped a line then has_changed_loop a rest zero
      else if \<not> is_boundary line then
        (case byte_count line of
           Inl e \<Rightarrow> Inl e
         | Inr n \<Rightarrow> if n \<noteq> 0 then Inr True else has_changed_loop a rest True)
      else if same_label a line then has_changed_loop a rest True
      else
        (case byte_count line of
           Inl e \<Rightarrow> Inl e
         | Inr n \<Rightarrow> if n \<noteq> 0 then has_changed_loop a rest False
                    else has_changed_loop a rest zero))"

text \<open>\<open>res\<close> is the result of \<open>zfs get -Hpr written <source>\<close>.\<close>

definition has_changed :: "args \<Rightarrow> proc \<Rightarrow> error + bool" where
  "has_changed a res =
     (if returncode res \<noteq> 0 then Inl (ZFSError (stderr res))
      else has_changed_loop a (stdout res) True)"

subsection \<open>Regular-expression searches anchored at the end\<close>

text \<open>
  \<open>$\<close> (without \<open>re.MULTILINE\<close>) holds at the end of the string and before a line feed
  that is the last character.
\<close>

definition line_end :: "string \<Rightarrow> bool" where
  "line_end r = (r = [] \<or> r = [LF])"

text \<open>
  \<open>re.search\<close> for a pattern \<open>F R* $\<close>, where \<open>F\<close> and \<open>R\<close> are character classes and
  \<open>R\<close> excludes the line feed: the leftmost position holding an \<open>F\<close> character after
  which the \<open>R\<close> characters run to the end. The result is \<open>group(0)\<close>, \<open>None\<close> when the
  search fails. (A shorter repetition never helps: it would stop before an \<open>R\<close>
  character, which is no line feed.)
\<close>

fun re_search_tail :: "(char \<Rightarrow> bool) \<Rightarrow> (char \<Rightarrow> bool) \<Rightarrow> string \<Rightarrow> string option" where
  "re_search_tail f r [] = None"
| "re_search_tail f r (c # cs) =
     (if f c \<and> line_end (dropWhile r cs) then Some (c # takeWhile r cs)
      else re_search_tail f r cs)"

text \<open>
  \<open>re.search(r"@.*$", s)\<close> followed by \<open>.group(0)[1:]\<close> (lines 157-158); \<open>None\<close> stands
  for the failed search, on which \<open>.group\<close> raises. The search
  \<open>re.search(r"(?<=@).*$", s).group(0)\<close> of line 91 finds the same text.
\<close>

definition after_at :: "string \<Rightarrow> string option" where
  "after_at s = map_option tl (re_search_tail (\<lambda>c. c = CHR ''@'') (\<lambda>c. c \<noteq> LF) s)"

text \<open>\<open>_get_timestamp\<close> (lines 185-199): \<open>re.search(r"[0-9][0-9\-_T]*$", string)\<close>.\<close>

definition get_timestamp :: "string \<Rightarrow> string option" where
  "get_timestamp s = re_search_tail is_digit (\<lambda>c. is_digit c \<or> c \<in> set ''-_T'') s"

subsection \<open>\<open>get_pairs\<close> (lines 142-183)\<close>

text \<open>
  The \<open>while\<close> loop: the two list arguments are \<open>src[i:]\<close> and \<open>dest[j:]\<close>, the third
  is \<open>pairs\<close>. Timestamps are compared as Python compares strings, lexicographically
  by code point.
\<close>

fun get_pairs_loop :: "string list \<Rightarrow> string list \<Rightarrow> string list \<Rightarrow> error + string list" where
  "get_pairs_loop (s # src) (d # dest) pairs =
     (case after_at s of
        None \<Rightarrow> Inl AttributeError
      | Some cur_src \<Rightarrow>
     (case after_at d of
        None \<Rightarrow> Inl AttributeError
      | Some cur_dest \<Rightarrow>
          if cur_src = cur_dest then get_pairs_loop src dest (pairs @ [cur_src])
          else
            (case get_timestamp cur_src of
               None \<Rightarrow> get_pairs_loop src (d # dest) pairs
             | Some src_stamp \<Rightarrow>
            (case get_timestamp cur_dest of
               None \<Rightarrow> get_pairs_loop (s # src) dest pairs
             | Some dest_stamp \<Rightarrow>
                 if src_stamp < dest_stamp then get_pairs_loop src (d # dest) pairs
                 else get_pairs_loop (s # src) dest pairs))))"
| "get_pairs_loop src dest pairs = Inr pairs"

definition get_pairs :: "string list \<Rightarrow> string list \<Rightarrow> error + string list" where
  "get_pairs src dest = get_pairs_loop src dest []"

text \<open>
  The elements the loop reads, in the order it reads them, up to the one on which it
  raises: the control flow of \<open>get_pairs_loop\<close> with the reads recorded.
\<close>

fun examined :: "string list \<Rightarrow> string list \<Rightarrow> string list" where
  "examined (s # src) (d # dest) =
     (case after_at s of
        None \<Rightarrow> [s]
      | Some cur_src \<Rightarrow>
     (case after_at d of
        None \<Rightarrow> [s, d]
      | Some cur_dest \<Rightarrow>
          s # d #
          (if cur_src = cur_dest then examined src dest
           else
            (case get_timestamp cur_src of
               None \<Rightarrow> examined src (d # dest)
             | Some src_stamp \<Rightarrow>
            (case get_timestamp cur_dest of
               None \<Rightarrow> examined (s # src) dest
             | Some dest_stamp \<Rightarrow>
                 if src_stamp < dest_stamp then examined src (d # dest)
                 else examined (s # src) dest)))))"
| "examined src dest = []"

subsection \<open>\<open>list_yaz_snapshots\<close> (lines 328-353)\<close>

text \<open>\<open>res\<close> is the result of \<open>zfs list -H -t snapshot <dataset>\<close>.\<close>

definition list_yaz_snapshots :: "args \<Rightarrow> string \<Rightarrow> proc \<Rightarrow> error + string list" where
  "list_yaz_snapshots a dataset res =
     (if returncode res \<noteq> 0 then Inl (ZFSError (stderr res))
      else Inr (map (takeWhile (\<lambda>c. c \<noteq> TAB))
                 (filter (\<lambda>line. py_find line (dataset @ ''@'' @ label a) \<noteq> -1) (stdout res))))"

subsection \<open>Dates and durations\<close>

record datetime =
  year :: nat
  month :: nat
  day :: nat
  hour :: nat
  minute :: nat
  second :: nat
  microsecond :: nat

text \<open>\<open>timedelta(minutes=n)\<close>, \<open>timedelta(hours=n)\<close>, \<open>timedelta(days=n)\<close>, \<open>timedelta(weeks=n)\<close>.\<close>

definition td_minutes :: "int \<Rightarrow> timedelta" where "td_minutes n = n * 60000000"
definition td_hours :: "int \<Rightarrow> timedelta" where "td_hours n = n * 3600000000"
definition td_days :: "int \<Rightarrow> timedelta" where "td_days n = n * 86400000000"
definition td_weeks :: "int \<Rightarrow> timedelta" where "td_weeks n = n * 604800000000"

text \<open>The constructor refuses a duration of more than 999999999 days in magnitude.\<close>

definition timedelta :: "timedelta \<Rightarrow> error + timedelta" where
  "timedelta us =
     (if us div 86400000000 < -999999999 \<or> 999999999 < us div 86400000000
      then Inl OverflowError else Inr us)"

definition is_leap :: "nat \<Rightarrow> bool" where
  "is_leap y = (y mod 4 = 0 \<and> (y mod 100 \<noteq> 0 \<or> y mod 400 = 0))"

definition days_in_month :: "nat \<Rightarrow> nat \<Rightarrow> nat" where
  "days_in_month y m =
     (if m = 2 then (if is_leap y then 29 else 28)
      else if m \<in> {4, 6, 9, 11} then 30 else 31)"

definition days_before_year :: "nat \<Rightarrow> nat" where
  "days_before_year y = (y - 1) * 365 + (y - 1) div 4 - (y - 1) div 100 + (y - 1) div 400"

definition days_before_month :: "nat \<Rightarrow> nat \<Rightarrow> nat" where
  "days_before_month y m = sum_list (map (days_in_month y) [1..<m])"

text \<open>The proleptic Gregorian ordinal of a date, as \<open>date.toordinal\<close>.\<close>

definition ymd2ord :: "nat \<Rightarrow> nat \<Rightarrow> nat \<Rightarrow> nat" where
  "ymd2ord y m d = days_before_year y + days_before_month y m + d"

definition to_microseconds :: "datetime \<Rightarrow> int" where
  "to_microseconds t =
     (((int (ymd2ord (year t) (month t) (day t)) * 24 + int (hour t)) * 60 + int (minute t)) * 60
        + int (second t)) * 1000000 + int (microsecond t)"

text \<open>The difference \<open>a - b\<close> of two naive datetimes.\<close>

definition dt_sub :: "datetime \<Rightarrow> datetime \<Rightarrow> timedelta" where
  "dt_sub a b = to_microseconds a - to_microseconds b"

text \<open>Decimal digits of a number, and \<open>%0wd\<close>.\<close>

fun digits :: "nat \<Rightarrow> string" where
  "digits n =
     (if n < 10 then [''0123456789'' ! n] else digits (n div 10) @ [''0123456789'' ! (n mod 10)])"

declare digits.simps [simp del]

definition zpad :: "nat \<Rightarrow> nat \<Rightarrow> string" where
  "zpad w n = replicate (w - length (digits n)) (CHR ''0'') @ digits n"

text \<open>\<open>t.isoformat(timespec='minutes', sep=...)\<close> of a naive datetime.\<close>

definition isoformat_minutes :: "char \<Rightarrow> datetime \<Rightarrow> string" where
  "isoformat_minutes sep t =
     zpad 4 (year t) @ ''-'' @ zpad 2 (month t) @ ''-'' @ zpad 2 (day t) @ [sep]
       @ zpad 2 (hour t) @ '':'' @ zpad 2 (minute t)"

text \<open>
  \<open>datetime.fromisoformat\<close> on the spelling \<open>YYYY-MM-DD\<close>, one separator character,
  \<open>HH:MM\<close>, the one the retention gate builds from a name this tool wrote. Any other
  text is reported as a \<open>ValueError\<close> here; which of them Python accepts depends on its
  version, and no result below rests on that branch.
\<close>

definition fromisoformat :: "string \<Rightarrow> error + datetime" where
  "fromisoformat s =
     (if length s = 16 \<and> s ! 4 = CHR ''-'' \<and> s ! 7 = CHR ''-'' \<and> s ! 13 = CHR '':''
         \<and> list_all is_digit (take 4 s @ take 2 (drop 5 s) @ take 2 (drop 8 s)
              @ take 2 (drop 11 s) @ take 2 (drop 14 s))
      then
        (let y = nat (decimal (take 4 s)); m = nat (decimal (take 2 (drop 5 s)));
             d = nat (decimal (take 2 (drop 8 s))); h = nat (decimal (take 2 (drop 11 s)));
             mi = nat (decimal (take 2 (drop 14 s)))
         in if 1 \<le> y \<and> 1 \<le> m \<and> m \<le> 12 \<and> 1 \<le> d \<and> d \<le> days_in_month y m \<and> h \<le> 23 \<and> mi \<le> 59
            then Inr \<lparr>year = y, month = m, day = d, hour = h, minute = mi,
                      second = 0, microsecond = 0\<rparr>
            else Inl (ValueError ''Invalid isoformat string''))
      else Inl (ValueError ''Invalid isoformat string''))"

subsection \<open>\<open>_get_timedelta\<close> (lines 290-326)\<close>

text \<open>
  \<open>re.match(r"^[0-9]*", time_str)\<close> always matches, possibly the empty string, and a
  match object is true: the \<open>else\<close> of line 325 is never taken, and \<open>int(num_str)\<close>
  raises the \<open>ValueError\<close> for an empty numeric part.
\<close>

definition get_timedelta :: "string \<Rightarrow> error + timedelta" where
  "get_timedelta time_str =
     (let num_str = takeWhile is_digit time_str
      in case py_int num_str of
           Inl e \<Rightarrow> Inl e
         | Inr num \<Rightarrow>
             (let spec_str = drop (length num_str) time_str
              in if spec_str \<in> set [''m'', ''minute'', ''minutes''] then timedelta (td_minutes num)
                 else if spec_str \<in> set [''h'', ''hour'', ''hours''] then timedelta (td_hours num)
                 else if spec_str \<in> set [''d'', ''day'', ''days''] then timedelta (td_days num)
                 else if spec_str \<in> set [''w'', ''week'', ''weeks''] then timedelta (td_weeks num)
                 else if spec_str \<in> set [''mon'', ''month'', ''months'']
                   then timedelta (td_days (num * 31))
                 else if spec_str \<in> set [''y'', ''year'', ''years'']
                   then timedelta (td_days (num * 365))
                 else Inl (ValueError ''Invalid time format. Use -h for help.'')))"

subsection \<open>The object: \<open>__init__\<close> (lines 18-34)\<close>

text \<open>
  \<open>args\<close> is the validated argument object and \<open>now\<close> the value of \<open>datetime.now()\<close>.
  An exception ends the run (nothing in the source catches one outside \<open>new_backup\<close>),
  so a function that fails returns the error alone.
\<close>

record yazbaka =
  args :: args
  now :: datetime
  timestamp :: string
  snapshot_name :: string
  snaps :: "string list"

definition init :: "args \<Rightarrow> datetime \<Rightarrow> yazbaka" where
  "init a t =
     (let ts = filter (\<lambda>c. c \<noteq> CHR '':'') (isoformat_minutes (CHR ''_'') t)
      in \<lparr>args = a, now = t, timestamp = ts, snapshot_name = label a @ ''_'' @ ts, snaps = []\<rparr>)"

subsection \<open>\<open>snapshot\<close> (lines 235-263)\<close>

definition snapshot_cmd :: "yazbaka \<Rightarrow> string list" where
  "snapshot_cmd self =
     (if CHR ''R'' \<in> set (send (args self))
      then [''zfs'', ''snapshot'', ''-r'', source (args self) @ ''@'' @ snapshot_name self]
      else [''zfs'', ''snapshot'', source (args self) @ ''@'' @ snapshot_name self])"

text \<open>
  \<open>run\<close> gives the result of the command. Line 259 uses the index returned by \<open>find\<close> as
  the condition: it is true for every index but 0.
\<close>

definition snapshot :: "yazbaka \<Rightarrow> (string list \<Rightarrow> proc) \<Rightarrow> error + bool" where
  "snapshot self run =
     (let res = run (snapshot_cmd self)
      in if returncode res \<noteq> 0 then
           (if py_find (stderr res) ''permission denied'' \<noteq> 0
            then Inl (PermissionError (stderr res))
            else Inl (ZFSError (stderr res)))
         else Inr True)"

subsection \<open>\<open>conditional_snapshot\<close> (lines 201-233)\<close>

text \<open>\<open>if self.args.omit\<close>: the option is given and the duration is not zero.\<close>

definition omit_set :: "args \<Rightarrow> bool" where
  "omit_set a = (case omit a of None \<Rightarrow> False | Some d \<Rightarrow> d \<noteq> 0)"

text \<open>
  Lines 224-225: \<open>re.search(r"[0-9][0-9\-_]*$", last_snap).group(0)\<close>, then a colon
  put before the last two characters.
\<close>

definition last_stamp :: "string \<Rightarrow> string option" where
  "last_stamp s = re_search_tail is_digit (\<lambda>c. is_digit c \<or> c \<in> set ''-_'') s"

definition with_colon :: "string \<Rightarrow> string" where
  "with_colon ts = take (length ts - 2) ts @ '':'' @ drop (length ts - 2) ts"

definition snapshot_time :: "string \<Rightarrow> error + datetime" where
  "snapshot_time last_snap =
     (case last_stamp last_snap of
        None \<Rightarrow> Inl AttributeError
      | Some ts \<Rightarrow> fromisoformat (with_colon ts))"

text \<open>
  \<open>get_res\<close> is the result of the \<open>written\<close> query, \<open>list_res\<close> gives the result of the
  snapshot listing of a dataset, \<open>run\<close> the result of the snapshot command. The value
  holds the object (line 221 stores the listing in \<open>self.snaps\<close>) and the boolean returned.
\<close>

definition conditional_snapshot ::
  "yazbaka \<Rightarrow> proc \<Rightarrow> (string \<Rightarrow> proc) \<Rightarrow> (string list \<Rightarrow> proc) \<Rightarrow> error + yazbaka \<times> bool" where
  "conditional_snapshot self get_res list_res run =
     (if transfer_only (args self) then Inr (self, False)
      else
        (case has_changed (args self) get_res of
           Inl e \<Rightarrow> Inl e
         | Inr changed \<Rightarrow>
             if \<not> changed \<and> \<not> no_omit_unchanged (args self) then Inr (self, False)
             else if omit_set (args self) then
               (case list_yaz_snapshots (args self) (source (args self))
                       (list_res (source (args self))) of
                  Inl e \<Rightarrow> Inl e
                | Inr l \<Rightarrow>
                    (let self' = self\<lparr>snaps := l\<rparr>
                     in if l \<noteq> [] then
                          (case snapshot_time (last l) of
                             Inl e \<Rightarrow> Inl e
                           | Inr t \<Rightarrow>
                               if the (omit (args self)) > dt_sub (now self) t
                               then Inr (self', False)
                               else map_sum id (Pair self') (snapshot self' run))
                        else map_sum id (Pair self') (snapshot self' run)))
             else map_sum id (Pair self) (snapshot self run)))"

subsection \<open>The transfers (lines 76-139)\<close>

text \<open>\<open>subprocess.run(cmd, shell=True)\<close> and the check of its return code.\<close>

definition run_shell :: "(string \<Rightarrow> proc) \<Rightarrow> string \<Rightarrow> error + unit" where
  "run_shell sh cmd =
     (let res = sh cmd
      in if returncode res \<noteq> 0 then Inl (ZFSError (stderr res)) else Inr ())"

text \<open>
  \<open>new_backup\<close>. The \<open>try\<close> block of lines 89-91 is the inner \<open>case\<close>; the bare
  \<open>except\<close> turns every error of the block into \<open>NoMatchingSnapshots\<close>.
\<close>

definition new_backup :: "yazbaka \<Rightarrow> (string \<Rightarrow> proc) \<Rightarrow> (string \<Rightarrow> proc) \<Rightarrow> error + yazbaka" where
  "new_backup self list_res sh =
     (case
        (case list_yaz_snapshots (args self) (source (args self))
                (list_res (source (args self))) of
           Inl e \<Rightarrow> Inl e
         | Inr l \<Rightarrow>
             if l = [] then Inl IndexError
             else (case after_at (last l) of None \<Rightarrow> Inl AttributeError | Some n \<Rightarrow> Inr n))
      of
        Inl e \<Rightarrow> Inl (NoMatchingSnapshots ''There are no snapshots tha can be sent'')
      | Inr name \<Rightarrow>
          (let self' = self\<lparr>snapshot_name := name\<rparr>;
               send_cmd = ''zfs send '' @ send (args self) @ '' '' @ source (args self) @ ''@'' @ name;
               recv_cmd = ''zfs recv '' @ recv (args self) @ '' '' @ destination (args self)
           in map_sum id (\<lambda>u. self') (run_shell sh (send_cmd @ '' | '' @ recv_cmd))))"

text \<open>
  \<open>incremental_backup\<close>, lines 116-132: the command built from the two listings.
  (Line 134, the \<open>if\<close> that prints the command, is indented deeper than its
  neighbours in the source; it is read at their level.)
\<close>

definition incremental_cmd :: "args \<Rightarrow> string list \<Rightarrow> string list \<Rightarrow> error + string" where
  "incremental_cmd a src dest =
     (case get_pairs src dest of
        Inl e \<Rightarrow> Inl e
      | Inr pairs \<Rightarrow>
          if length pairs = 0
          then Inl (NoMatchingSnapshots
                      ''There are no matching snapshots between source and destination'')
          else
            (let src_start = source a @ ''@'' @ last pairs
             in if src = [] then Inl IndexError
                else
                  (let src_end = last src
                   in if src_start = src_end
                      then Inl (NoMatchingSnapshots ''There are no snapshots tha can be sent'')
                      else
                        (let iflag = (if full_incremental a then '' -I '' else '' -i '');
                             send_cmd = ''zfs send '' @ send a @ iflag @ src_start @ '' '' @ src_end;
                             recv_cmd = ''zfs recv '' @ recv a @ '' '' @ destination a
                         in Inr (send_cmd @ '' | '' @ recv_cmd)))))"

definition incremental_backup :: "yazbaka \<Rightarrow> (string \<Rightarrow> proc) \<Rightarrow> (string \<Rightarrow> proc) \<Rightarrow> error + yazbaka" where
  "incremental_backup self list_res sh =
     (case list_yaz_snapshots (args self) (source (args self)) (list_res (source (args self))) of
        Inl e \<Rightarrow> Inl e
      | Inr src \<Rightarrow>
     (case list_yaz_snapshots (args self) (destination (args self))
             (list_res (destination (args self))) of
        Inl e \<Rightarrow> Inl e
      | Inr dest \<Rightarrow>
     (case incremental_cmd (args self) src dest of
        Inl e \<Rightarrow> Inl e
      | Inr cmd \<Rightarrow> map_sum id (\<lambda>u. self) (run_shell sh cmd))))"

definition transfer :: "yazbaka \<Rightarrow> (string \<Rightarrow> proc) \<Rightarrow> (string \<Rightarrow> proc) \<Rightarrow> error + yazbaka" where
  "transfer self list_res sh =
     (if incremental (args self) \<or> full_incremental (args self)
      then incremental_backup self list_res sh
      else new_backup self list_res sh)"

subsection \<open>Sample data for the examples\<close>

definition sample_args :: args where
  "sample_args = \<lparr>source = ''pool/ds'', destination = ''bak/ds'', label = ''yazbak'',
      send = ''-R'', recv = [], omit = Some (td_hours 1), incremental = True,
      full_incremental = False, transfer_only = False, no_omit_unchanged = False\<rparr>"

definition written_line :: "string \<Rightarrow> string \<Rightarrow> string" where
  "written_line name n = name @ [TAB] @ ''written'' @ [TAB] @ n @ [TAB] @ ''-''"

definition src_names :: "string list" where
  "src_names = [''pool/ds@yazbak_2024-01-01_1000'', ''pool/ds@yazbak_2024-01-02_1000'',
                ''pool/ds@yazbak_2024-01-03_1000'']"

definition dest_names :: "string list" where
  "dest_names = [''bak/ds@yazbak_2024-01-01_1000'', ''bak/ds@yazbak_2024-01-02_1000'']"



definition sample_now :: datetime where
  "sample_now = \<lparr>year = 2024, month = 3, day = 1, hour = 0, minute = 15, second = 30,
      microsecond = 250\<rparr>"

text \<open>An external command that fails with the given diagnostic text, and one that succeeds.\<close>

definition failing :: "string \<Rightarrow> 'a \<Rightarrow> proc" where
  "failing msg cmd = \<lparr>returncode = 1, stdout = [], stderr = msg\<rparr>"

definition succeeding :: "'a \<Rightarrow> proc" where
  "succeeding cmd = \<lparr>returncode = 0, stdout = [], stderr = []\<rparr>"

text \<open>The unit spellings of lines 311-321.\<close>

definition recognized_units :: "string list" where
  "recognized_units =
     [''m'', ''minute'', ''minutes'', ''h'', ''hour'', ''hours'', ''d'', ''day'', ''days'',
      ''w'', ''week'', ''weeks'', ''mon'', ''month'', ''months'', ''y'', ''year'', ''years'']"

text \<open>The values a \<open>datetime\<close> object can hold.\<close>

definition valid_datetime :: "datetime \<Rightarrow> bool" where
  "valid_datetime t =
     (1 \<le> year t \<and> year t \<le> 9999 \<and> 1 \<le> month t \<and> month t \<le> 12 \<and> 1 \<le> day t
      \<and> day t \<le> days_in_month (year t) (month t) \<and> hour t \<le> 23 \<and> minute t \<le> 59
      \<and> second t \<le> 59 \<and> microsecond t \<le> 999999)"

definition noon :: datetime where
  "noon = \<lparr>year = 2024, month = 3, day = 2, hour = 12, minute = 0, second = 0, microsecond = 0\<rparr>"

text \<open>A line of \<open>zfs list -H -t snapshot\<close> and a successful listing of the given names.\<close>

definition list_line :: "string \<Rightarrow> string" where
  "list_line name = name @ [TAB] @ ''0B'' @ [TAB] @ ''-'' @ [TAB] @ ''96K'' @ [TAB] @ ''-''"

definition listing :: "string list \<Rightarrow> proc" where
  "listing names = \<lparr>returncode = 0, stdout = map list_line names, stderr = []\<rparr>"

definition zfs_list :: "string list \<Rightarrow> string list \<Rightarrow> string \<Rightarrow> proc" where
  "zfs_list src dest dataset = (if dataset = ''pool/ds'' then listing src else listing dest)"

text \<open>An answer of the \<open>written\<close> query that shows writes on the live dataset.\<close>

definition changed_query :: proc where
  "changed_query = \<lparr>returncode = 0, stdout = [written_line ''pool/ds'' ''8192''], stderr = []\<rparr>"


subsection \<open>Results on \<open>has_changed\<close>\<close>


lemmas line_tests = skipped_def is_boundary_def same_label_def byte_count_def written_line_def
  sample_args_def TAB_def py_int_def strip_def is_space_def is_digit_def decimal_def digit_val_def



text \<open>
  Claim C2, amended. For a line that is not skipped and names no snapshot (the live
  dataset or a child): a byte count that is not zero returns "changed" at once, whatever
  lines follow; a byte count of zero sets \<open>zero\<close> to true (line 64) and the scan goes on.
  The flag is therefore not left as it was: a zero-byte live line erases the evidence of
  an earlier snapshot line with another label, as in the output of a recursive query
  where the child \<open>pool/ds/child\<close> follows the snapshot \<open>pool/ds@manual\<close>.
\<close>

theorem has_changed_live_records:
  "(\<not> skipped a line \<and> \<not> is_boundary line \<and> byte_count line = Inr n \<and> n \<noteq> 0 \<longrightarrow>
      has_changed_loop a (line # rest) zero = Inr True)
   \<and> (\<not> skipped a line \<and> \<not> is_boundary line \<and> byte_count line = Inr 0 \<longrightarrow>
      has_changed_loop a (line # rest) zero = has_changed_loop a rest True)"
  by simp

theorem has_changed_live_records_witness:
  "\<not> skipped sample_args (written_line ''pool/ds'' ''8192'')
   \<and> \<not> is_boundary (written_line ''pool/ds'' ''8192'')
   \<and> byte_count (written_line ''pool/ds'' ''8192'') = Inr 8192
   \<and> has_changed_loop sample_args
        [written_line ''pool/ds'' ''8192'', written_line ''pool/ds@yazbak_2024-01-01_1000'' ''0'']
        True = Inr True
   \<and> \<not> skipped sample_args (written_line ''pool/ds/child'' ''0'')
   \<and> \<not> is_boundary (written_line ''pool/ds/child'' ''0'')
   \<and> byte_count (written_line ''pool/ds/child'' ''0'') = Inr 0
   \<and> has_changed_loop sample_args [written_line ''pool/ds/child'' ''0''] False = Inr False"
proof -
  have h: "\<not> skipped sample_args (written_line ''pool/ds'' ''8192'')"
    "\<not> is_boundary (written_line ''pool/ds'' ''8192'')"
    "byte_count (written_line ''pool/ds'' ''8192'') = Inr 8192"
    "\<not> skipped sample_args (written_line ''pool/ds/child'' ''0'')"
    "\<not> is_boundary (written_line ''pool/ds/child'' ''0'')"
    "byte_count (written_line ''pool/ds/child'' ''0'') = Inr 0"
    by (simp_all add: line_tests)
  from h
    has_changed_live_records[of sample_args "written_line ''pool/ds'' ''8192''" 8192
      "[written_line ''pool/ds@yazbak_2024-01-01_1000'' ''0'']" True]
    has_changed_live_records[of sample_args "written_line ''pool/ds/child'' ''0''" 0 "[]" False]
  show ?thesis by simp
qed

theorem has_changed_live_zero_counterexample:
  "has_changed sample_args
     \<lparr>returncode = 0,
      stdout = [written_line ''pool/ds'' ''0'', written_line ''pool/ds@manual'' ''4096''],
      stderr = []\<rparr> = Inr True
   \<and> has_changed sample_args
     \<lparr>returncode = 0,
      stdout = [written_line ''pool/ds'' ''0'', written_line ''pool/ds@manual'' ''4096'',
                written_line ''pool/ds/child'' ''0''],
      stderr = []\<rparr> = Inr False"
  by (simp add: has_changed_def line_tests)

subsection \<open>Results on \<open>get_pairs\<close>\<close>

text \<open>An induction rule that follows the branches of the loop.\<close>

lemma get_pairs_induct [case_names no_src no_dest bad_src bad_dest match skip_src skip_dest]:
  assumes "\<And>dest acc. P [] dest acc"
    and "\<And>src acc. P src [] acc"
    and "\<And>s src d dest acc. after_at s = None \<Longrightarrow> P (s # src) (d # dest) acc"
    and "\<And>s src d dest acc c. after_at s = Some c \<Longrightarrow> after_at d = None \<Longrightarrow>
           P (s # src) (d # dest) acc"
    and "\<And>s src d dest acc c. after_at s = Some c \<Longrightarrow> after_at d = Some c \<Longrightarrow>
           P src dest (acc @ [c]) \<Longrightarrow> P (s # src) (d # dest) acc"
    and "\<And>s src d dest acc cs cd. after_at s = Some cs \<Longrightarrow> after_at d = Some cd \<Longrightarrow>
           cs \<noteq> cd \<Longrightarrow>
           get_pairs_loop (s # src) (d # dest) acc = get_pairs_loop src (d # dest) acc \<Longrightarrow>
           examined (s # src) (d # dest) = s # d # examined src (d # dest) \<Longrightarrow>
           P src (d # dest) acc \<Longrightarrow> P (s # src) (d # dest) acc"
    and "\<And>s src d dest acc cs cd. after_at s = Some cs \<Longrightarrow> after_at d = Some cd \<Longrightarrow>
           cs \<noteq> cd \<Longrightarrow>
           get_pairs_loop (s # src) (d # dest) acc = get_pairs_loop (s # src) dest acc \<Longrightarrow>
           examined (s # src) (d # dest) = s # d # examined (s # src) dest \<Longrightarrow>
           P (s # src) dest acc \<Longrightarrow> P (s # src) (d # dest) acc"
  shows "P src dest acc"
proof (induction src dest acc rule: get_pairs_loop.induct)
  case (1 s src d dest pairs)
  show ?case
  proof (cases "after_at s")
    case None
    then show ?thesis by (rule assms(3))
  next
    case cs: (Some cur_src)
    show ?thesis
    proof (cases "after_at d")
      case None
      with cs show ?thesis by (rule assms(4))
    next
      case cd: (Some cur_dest)
      show ?thesis
      proof (cases "cur_src = cur_dest")
        case True
        from "1.IH"(1)[OF cs cd True] cs cd True show ?thesis
          by (intro assms(5)[of s cur_src d]) simp_all
      next
        case ne: False
        show ?thesis
        proof (cases "get_timestamp cur_src")
          case None
          from "1.IH"(2)[OF cs cd ne None] show ?thesis
            by (rule assms(6)[OF cs cd ne, rotated 2]) (simp_all add: cs cd ne None)
        next
          case ss: (Some src_stamp)
          show ?thesis
          proof (cases "get_timestamp cur_dest")
            case None
            from "1.IH"(3)[OF cs cd ne ss None] show ?thesis
              by (rule assms(7)[OF cs cd ne, rotated 2]) (simp_all add: cs cd ne ss None)
          next
            case ds: (Some dest_stamp)
            show ?thesis
            proof (cases "src_stamp < dest_stamp")
              case True
              from "1.IH"(4)[OF cs cd ne ss ds True] show ?thesis
                by (rule assms(6)[OF cs cd ne, rotated 2]) (simp_all add: cs cd ne ss ds True)
            next
              case False
              from "1.IH"(5)[OF cs cd ne ss ds False] show ?thesis
                by (rule assms(7)[OF cs cd ne, rotated 2]) (simp_all add: cs cd ne ss ds False)
            qed
          qed
        qed
      qed
    qed
  qed
qed (rule assms(1) assms(2))+


lemma loop_bad_src: "after_at s = None \<Longrightarrow> get_pairs_loop (s # src) (d # dest) acc = Inl AttributeError"
  by simp

lemma loop_bad_dest:
  "after_at s = Some c \<Longrightarrow> after_at d = None \<Longrightarrow>
   get_pairs_loop (s # src) (d # dest) acc = Inl AttributeError"
  by simp

lemma loop_match:
  "after_at s = Some c \<Longrightarrow> after_at d = Some c \<Longrightarrow>
   get_pairs_loop (s # src) (d # dest) acc = get_pairs_loop src dest (acc @ [c])"
  by simp

lemma examined_bad_src: "after_at s = None \<Longrightarrow> examined (s # src) (d # dest) = [s]"
  by simp

lemma examined_bad_dest:
  "after_at s = Some c \<Longrightarrow> after_at d = None \<Longrightarrow> examined (s # src) (d # dest) = [s, d]"
  by simp

lemma examined_match:
  "after_at s = Some c \<Longrightarrow> after_at d = Some c \<Longrightarrow>
   examined (s # src) (d # dest) = s # d # examined src dest"
  by simp

lemmas loop_rules = loop_bad_src loop_bad_dest loop_match get_pairs_loop.simps(2,3)
lemmas examined_rules = examined_bad_src examined_bad_dest examined_match examined.simps(2,3)

lemma subseq_set: "subseq xs ys \<Longrightarrow> set xs \<subseteq> set ys"
  by (induction xs ys rule: list_emb.induct) auto

lemma subseq_sorted_wrt: "subseq xs ys \<Longrightarrow> sorted_wrt R ys \<Longrightarrow> sorted_wrt R xs"
proof (induction xs ys rule: list_emb.induct)
  case (list_emb_Cons2 x y xs ys)
  from list_emb_Cons2.hyps(2) have "set xs \<subseteq> set ys" by (rule subseq_set)
  with list_emb_Cons2 show ?case by auto
qed simp_all

lemma get_pairs_loop_subseq:
  "get_pairs_loop src dest acc = Inr ps \<Longrightarrow>
   \<exists>qs. ps = acc @ qs \<and> subseq (map Some qs) (map after_at src)
        \<and> subseq (map Some qs) (map after_at dest)"
proof (induction src dest acc arbitrary: ps rule: get_pairs_induct)
  case (no_src dest acc)
  then show ?case by simp
next
  case (no_dest src acc)
  then show ?case by simp
next
  case (bad_src s src d dest acc)
  then show ?case by (simp only: loop_bad_src) simp
next
  case (bad_dest s src d dest acc c)
  then show ?case by (simp only: loop_bad_dest) simp
next
  case (match s src d dest acc c)
  from match.prems match.hyps have "get_pairs_loop src dest (acc @ [c]) = Inr ps"
    by (simp only: loop_match)
  from match.IH[OF this] obtain qs where
    "ps = (acc @ [c]) @ qs" "subseq (map Some qs) (map after_at src)"
    "subseq (map Some qs) (map after_at dest)" by blast
  with match.hyps show ?case
    by (intro exI[of _ "c # qs"]) simp
next
  case (skip_src s src d dest acc cs cd)
  from skip_src.prems skip_src.hyps(4) have "get_pairs_loop src (d # dest) acc = Inr ps"
    by (simp only:)
  from skip_src.IH[OF this] obtain qs where
    "ps = acc @ qs" "subseq (map Some qs) (map after_at src)"
    "subseq (map Some qs) (map after_at (d # dest))" by blast
  then show ?case by (intro exI[of _ qs]) (simp del: list_emb_Cons_iff2 add: list_emb_Cons)
next
  case (skip_dest s src d dest acc cs cd)
  from skip_dest.prems skip_dest.hyps(4) have "get_pairs_loop (s # src) dest acc = Inr ps"
    by (simp only:)
  from skip_dest.IH[OF this] obtain qs where
    "ps = acc @ qs" "subseq (map Some qs) (map after_at (s # src))"
    "subseq (map Some qs) (map after_at dest)" by blast
  then show ?case by (intro exI[of _ qs]) (simp del: list_emb_Cons_iff2 add: list_emb_Cons)
qed

lemma get_pairs_loop_same:
  "map after_at src = map Some ss \<Longrightarrow> get_pairs_loop src src acc = Inr (acc @ ss)"
proof (induction src arbitrary: ss acc)
  case Nil
  then show ?case by simp
next
  case (Cons x src)
  then obtain c cs where ss: "ss = c # cs" and c: "after_at x = Some c"
    and cs: "map after_at src = map Some cs" by (cases ss) auto
  from Cons.IH[OF cs, of "acc @ [c]"] ss show ?case
    by (simp only: loop_match[OF c c]) simp
qed


lemma get_pairs_loop_examined:
  "(\<exists>ps. get_pairs_loop src dest acc = Inr ps) \<longleftrightarrow> (\<forall>x \<in> set (examined src dest). after_at x \<noteq> None)"
proof (induction src dest acc rule: get_pairs_induct)
  case (skip_src s src d dest acc cs cd)
  then show ?case by (simp only:) simp
next
  case (skip_dest s src d dest acc cs cd)
  then show ?case by (simp only:) simp
next
  case (match s src d dest acc c)
  then show ?case by (simp only: loop_match examined_match) simp
qed (simp_all only: loop_rules examined_rules, simp_all)

lemma subseq_map_Some: "subseq (map Some xs) (map Some ys) \<Longrightarrow> subseq xs ys"
proof (induction ys arbitrary: xs)
  case Nil
  then show ?case by (cases xs) simp_all
next
  case (Cons y ys)
  then show ?case by (cases xs) (auto split: if_splits)
qed

lemma examined_subset: "set (examined src dest) \<subseteq> set src \<union> set dest"
proof (rule get_pairs_induct[where P = "\<lambda>src dest acc. set (examined src dest)
    \<subseteq> set src \<union> set dest" and acc = "[]"])
  fix s src d dest
  assume "examined (s # src) (d # dest) = s # d # examined src (d # dest)"
    and "set (examined src (d # dest)) \<subseteq> set src \<union> set (d # dest)"
  then show "set (examined (s # src) (d # dest)) \<subseteq> set (s # src) \<union> set (d # dest)"
    by (simp only:) auto
next
  fix s src d dest
  assume "examined (s # src) (d # dest) = s # d # examined (s # src) dest"
    and "set (examined (s # src) dest) \<subseteq> set (s # src) \<union> set dest"
  then show "set (examined (s # src) (d # dest)) \<subseteq> set (s # src) \<union> set (d # dest)"
    by (simp only:) auto
next
  fix s src d dest c
  assume "after_at s = Some c" "after_at d = Some c"
    and "set (examined src dest) \<subseteq> set src \<union> set dest"
  then show "set (examined (s # src) (d # dest)) \<subseteq> set (s # src) \<union> set (d # dest)"
    by (simp only: examined_match) auto
qed (simp_all only: examined_rules, simp_all)


lemma get_pairs_total:
  assumes "\<forall>x \<in> set src \<union> set dest. after_at x \<noteq> None"
  shows "\<exists>ps. get_pairs src dest = Inr ps"
proof -
  from assms examined_subset[of src dest]
  have "\<forall>x \<in> set (examined src dest). after_at x \<noteq> None" by blast
  then show ?thesis unfolding get_pairs_def by (simp only: get_pairs_loop_examined)
qed

lemma map_Some_defined: "map f xs = map Some ys \<Longrightarrow> \<forall>x \<in> set xs. f x \<noteq> None"
  by (induction xs arbitrary: ys) auto

text \<open>
  Claim C3. Let \<open>ss\<close> and \<open>ds\<close> be the sequences of after-@ suffixes of the two
  inputs (every name has one, as a label-filtered snapshot name does). Then \<open>get_pairs\<close>
  returns a list that is a subsequence of \<open>ss\<close> and of \<open>ds\<close>, so each of its elements is a
  suffix found on both sides and the elements come in the order of the inputs: whenever
  \<open>ss\<close> is ordered by a relation \<open>R\<close> (ascending timestamps), so is the result. Two
  identical inputs give the full sequence of suffixes, and an empty input on either
  side gives the empty list.
\<close>

theorem get_pairs_subsequence:
  assumes "map after_at src = map Some ss" and "map after_at dest = map Some ds"
  shows "(\<exists>ps. get_pairs src dest = Inr ps \<and> subseq ps ss \<and> subseq ps ds
            \<and> set ps \<subseteq> set ss \<inter> set ds \<and> (sorted_wrt R ss \<longrightarrow> sorted_wrt R ps))
         \<and> get_pairs src src = Inr ss
         \<and> get_pairs [] dest = Inr [] \<and> get_pairs src [] = Inr []"
proof -
  from assms have "\<forall>x \<in> set src \<union> set dest. after_at x \<noteq> None"
    using map_Some_defined[of after_at src ss] map_Some_defined[of after_at dest ds] by blast
  then obtain ps where ps: "get_pairs src dest = Inr ps" using get_pairs_total by blast
  then have "get_pairs_loop src dest [] = Inr ps" by (simp only: get_pairs_def)
  from get_pairs_loop_subseq[OF this] assms
  have s1: "subseq ps ss" and s2: "subseq ps ds" by (auto dest: subseq_map_Some)
  from s1 s2 have "set ps \<subseteq> set ss \<inter> set ds" using subseq_set by blast
  moreover from s1 have "sorted_wrt R ss \<longrightarrow> sorted_wrt R ps" using subseq_sorted_wrt by blast
  moreover have "get_pairs src src = Inr ss"
    using get_pairs_loop_same[OF assms(1), of "[]"] by (simp add: get_pairs_def)
  moreover have "get_pairs [] dest = Inr []" by (simp add: get_pairs_def)
  moreover have "get_pairs src [] = Inr []" by (cases src) (simp_all add: get_pairs_def)
  ultimately show ?thesis using ps s1 s2 by blast
qed

lemma sample_suffixes:
  "map after_at src_names = map Some [''yazbak_2024-01-01_1000'', ''yazbak_2024-01-02_1000'', ''yazbak_2024-01-03_1000'']"
  "map after_at dest_names = map Some [''yazbak_2024-01-01_1000'', ''yazbak_2024-01-02_1000'']"
  by (simp_all add: src_names_def dest_names_def after_at_def line_end_def LF_def)

theorem get_pairs_subsequence_witness:
  "map after_at src_names = map Some [''yazbak_2024-01-01_1000'', ''yazbak_2024-01-02_1000'', ''yazbak_2024-01-03_1000'']
   \<and> map after_at dest_names = map Some [''yazbak_2024-01-01_1000'', ''yazbak_2024-01-02_1000'']
   \<and> get_pairs src_names dest_names = Inr [''yazbak_2024-01-01_1000'', ''yazbak_2024-01-02_1000'']
   \<and> get_pairs src_names src_names = Inr [''yazbak_2024-01-01_1000'', ''yazbak_2024-01-02_1000'', ''yazbak_2024-01-03_1000'']"
proof -
  have "get_pairs src_names dest_names = Inr [''yazbak_2024-01-01_1000'', ''yazbak_2024-01-02_1000'']"
    by (simp add: get_pairs_def src_names_def dest_names_def after_at_def line_end_def LF_def)
  with get_pairs_subsequence[OF sample_suffixes, of "(<)"] sample_suffixes show ?thesis by simp
qed




subsection \<open>Results on \<open>_get_timedelta\<close>\<close>

lemma py_int_error: "py_int s = Inl e \<Longrightarrow> \<exists>m. e = ValueError m"
  by (auto simp: py_int_def Let_def split: if_splits)

lemma py_int_empty: "py_int [] = Inl (ValueError ''invalid literal for int() with base 10'')"
  by (simp add: py_int_def strip_def)

lemmas timedelta_eval = get_timedelta_def py_int_def strip_def is_space_def is_digit_def
  decimal_def digit_val_def timedelta_def td_minutes_def td_hours_def td_days_def td_weeks_def

text \<open>
  Claim C9. \<open>"3h"\<close> is three hours, \<open>"5days"\<close> five days and \<open>"2mon"\<close> 62 days; a
  month counts 31 days and a year 365 whatever the number. The function fails with a
  \<open>ValueError\<close> (the error the claim calls InvalidTimeSpec) on \<open>"x"\<close>, on \<open>"h"\<close>, on
  every text that starts with no digit, and on every text whose part after the leading
  digits is none of the recognised units.
\<close>

theorem get_timedelta_spec:
  "get_timedelta ''3h'' = Inr (td_hours 3)
   \<and> get_timedelta ''5days'' = Inr (td_days 5)
   \<and> get_timedelta ''2mon'' = Inr (td_days 62)
   \<and> (py_int (takeWhile is_digit s) = Inr n
        \<and> drop (length (takeWhile is_digit s)) s \<in> set [''mon'', ''month'', ''months'']
        \<longrightarrow> get_timedelta s = timedelta (td_days (n * 31)))
   \<and> (py_int (takeWhile is_digit s) = Inr n
        \<and> drop (length (takeWhile is_digit s)) s \<in> set [''y'', ''year'', ''years'']
        \<longrightarrow> get_timedelta s = timedelta (td_days (n * 365)))
   \<and> (\<exists>m. get_timedelta ''x'' = Inl (ValueError m))
   \<and> (\<exists>m. get_timedelta ''h'' = Inl (ValueError m))
   \<and> (takeWhile is_digit s = [] \<longrightarrow> (\<exists>m. get_timedelta s = Inl (ValueError m)))
   \<and> (drop (length (takeWhile is_digit s)) s \<notin> set recognized_units
        \<longrightarrow> (\<exists>m. get_timedelta s = Inl (ValueError m)))"
proof -
  have a: "get_timedelta ''3h'' = Inr (td_hours 3)" by (simp add: timedelta_eval)
  have b: "get_timedelta ''5days'' = Inr (td_days 5)" by (simp add: timedelta_eval)
  have c: "get_timedelta ''2mon'' = Inr (td_days 62)" by (simp add: timedelta_eval)
  have d: "get_timedelta s = timedelta (td_days (n * 31))"
    if "py_int (takeWhile is_digit s) = Inr n"
      and "drop (length (takeWhile is_digit s)) s \<in> set [''mon'', ''month'', ''months'']"
    using that by (auto simp: get_timedelta_def Let_def)
  have e: "get_timedelta s = timedelta (td_days (n * 365))"
    if "py_int (takeWhile is_digit s) = Inr n"
      and "drop (length (takeWhile is_digit s)) s \<in> set [''y'', ''year'', ''years'']"
    using that by (auto simp: get_timedelta_def Let_def)
  have f: "\<exists>m. get_timedelta t = Inl (ValueError m)" if "takeWhile is_digit t = []" for t
    using that by (simp add: get_timedelta_def py_int_empty)
  have g: "\<exists>m. get_timedelta s = Inl (ValueError m)"
    if u: "drop (length (takeWhile is_digit s)) s \<notin> set recognized_units"
  proof (cases "py_int (takeWhile is_digit s)")
    case (Inl err)
    with py_int_error[OF Inl] show ?thesis by (auto simp: get_timedelta_def)
  next
    case (Inr num)
    with u show ?thesis by (simp add: get_timedelta_def Let_def recognized_units_def)
  qed
  have "\<exists>m. get_timedelta ''x'' = Inl (ValueError m)" by (rule f) (simp add: is_digit_def)
  moreover have "\<exists>m. get_timedelta ''h'' = Inl (ValueError m)" by (rule f) (simp add: is_digit_def)
  ultimately show ?thesis using a b c d e f[of s] g by blast
qed

theorem get_timedelta_spec_witness:
  "takeWhile is_digit ''weeks'' = []
   \<and> get_timedelta ''weeks'' = Inl (ValueError ''invalid literal for int() with base 10'')
   \<and> drop (length (takeWhile is_digit ''7fortnights'')) ''7fortnights'' \<notin> set recognized_units
   \<and> get_timedelta ''7fortnights'' = Inl (ValueError ''Invalid time format. Use -h for help.'')
   \<and> py_int (takeWhile is_digit ''3months'') = Inr 3
   \<and> get_timedelta ''3months'' = Inr (td_days 93)
   \<and> py_int (takeWhile is_digit ''1y'') = Inr 1
   \<and> get_timedelta ''1y'' = Inr (td_days 365)"
proof -
  have h: "takeWhile is_digit ''weeks'' = []"
    "drop (length (takeWhile is_digit ''7fortnights'')) ''7fortnights'' \<notin> set recognized_units"
    "py_int (takeWhile is_digit ''3months'') = Inr 3"
    "drop (length (takeWhile is_digit ''3months'')) ''3months'' \<in> set [''mon'', ''month'', ''months'']"
    "py_int (takeWhile is_digit ''1y'') = Inr 1"
    "drop (length (takeWhile is_digit ''1y'')) ''1y'' \<in> set [''y'', ''year'', ''years'']"
    by (simp_all add: timedelta_eval recognized_units_def)
  have v: "get_timedelta ''weeks'' = Inl (ValueError ''invalid literal for int() with base 10'')"
    "get_timedelta ''7fortnights'' = Inl (ValueError ''Invalid time format. Use -h for help.'')"
    by (simp_all add: timedelta_eval)
  from h get_timedelta_spec[of "''3months''" 3] get_timedelta_spec[of "''1y''" 1]
  have "get_timedelta ''3months'' = timedelta (td_days (3 * 31))"
    "get_timedelta ''1y'' = timedelta (td_days (1 * 365))" by blast+
  then have "get_timedelta ''3months'' = Inr (td_days 93)" "get_timedelta ''1y'' = Inr (td_days 365)"
    by (simp_all add: timedelta_def td_days_def)
  with h v show ?thesis by simp
qed

subsection \<open>Results on \<open>snapshot\<close> and \<open>new_backup\<close>\<close>

lemma snapshot_failure:
  "returncode (run (snapshot_cmd self)) \<noteq> 0 \<Longrightarrow>
   snapshot self run =
     (if py_find (stderr (run (snapshot_cmd self))) ''permission denied'' \<noteq> 0
      then Inl (PermissionError (stderr (run (snapshot_cmd self))))
      else Inl (ZFSError (stderr (run (snapshot_cmd self)))))"
  by (simp add: snapshot_def Let_def)

text \<open>
  Claim C6 fails on the code. When the snapshot command fails, line 259 takes the index
  returned by \<open>find\<close> as the condition: a diagnostic text without the marker (index
  \<open>-1\<close>) raises \<open>PermissionError\<close>, and a text that starts with the marker (index \<open>0\<close>)
  raises the generic \<open>ZFSError\<close>. The docstring of \<open>snapshot\<close> reserves \<open>PermissionError\<close>
  for missing permissions.
\<close>

theorem snapshot_permission_marker_misread:
  "py_find ''cannot create snapshot: out of space'' ''permission denied'' = -1
   \<and> snapshot (init sample_args sample_now) (failing ''cannot create snapshot: out of space'')
       = Inl (PermissionError ''cannot create snapshot: out of space'')
   \<and> py_find ''permission denied: cannot create snapshot'' ''permission denied'' = 0
   \<and> snapshot (init sample_args sample_now) (failing ''permission denied: cannot create snapshot'')
       = Inl (ZFSError ''permission denied: cannot create snapshot'')"
  by (simp add: snapshot_def failing_def Let_def)

lemma new_backup_listing_failure:
  "returncode (list_res (source (args self))) \<noteq> 0 \<Longrightarrow>
   new_backup self list_res sh = Inl (NoMatchingSnapshots ''There are no snapshots tha can be sent'')"
  by (simp add: new_backup_def list_yaz_snapshots_def)

text \<open>
  Claim C7 fails on the code. In a full transfer the bare \<open>except\<close> of line 92 also
  catches the \<open>ZFSError\<close> that \<open>list_yaz_snapshots\<close> raises when the listing command
  fails, and \<open>NoMatchingSnapshots\<close> is raised in its place; \<open>incremental_backup\<close>, with
  the same failed listing, lets the \<open>ZFSError\<close> through.
\<close>

theorem new_backup_hides_listing_failure:
  "list_yaz_snapshots sample_args ''pool/ds'' (failing ''cannot open pool/ds: dataset does not exist'' ''pool/ds'')
     = Inl (ZFSError ''cannot open pool/ds: dataset does not exist'')
   \<and> transfer (init (sample_args\<lparr>incremental := False\<rparr>) sample_now)
        (failing ''cannot open pool/ds: dataset does not exist'') succeeding
       = Inl (NoMatchingSnapshots ''There are no snapshots tha can be sent'')
   \<and> transfer (init sample_args sample_now)
        (failing ''cannot open pool/ds: dataset does not exist'') succeeding
       = Inl (ZFSError ''cannot open pool/ds: dataset does not exist'')"
  by (simp add: transfer_def new_backup_def incremental_backup_def list_yaz_snapshots_def
      failing_def init_def sample_args_def Let_def)

subsection \<open>Results on \<open>incremental_backup\<close>\<close>





subsection \<open>Results on the snapshot name\<close>

lemma digit_char: "n < 10 \<Longrightarrow> ''0123456789'' ! n \<in> set ''0123456789''"
  by (rule nth_mem) simp

lemma digits_set: "set (digits n) \<subseteq> set ''0123456789''"
proof (induction n rule: digits.induct)
  case (1 n)
  show ?case
  proof (cases "n < 10")
    case True
    then show ?thesis using digit_char[of n] by (simp add: digits.simps[of n])
  next
    case False
    then have "n mod 10 < 10" by simp
    from digit_char[OF this] "1.IH"[OF False] False show ?thesis
      by (simp add: digits.simps[of n])
  qed
qed

lemma digits_length: "0 < w \<Longrightarrow> n < 10 ^ w \<Longrightarrow> length (digits n) \<le> w"
proof (induction w arbitrary: n)
  case 0
  then show ?case by simp
next
  case (Suc w)
  show ?case
  proof (cases "n < 10")
    case True
    then show ?thesis by (simp add: digits.simps[of n])
  next
    case False
    with Suc.prems have w: "0 < w" by (cases w) auto
    from Suc.prems have "n div 10 < 10 ^ w" by (simp add: less_mult_imp_div_less mult.commute)
    from Suc.IH[OF w this] False show ?thesis by (simp add: digits.simps[of n])
  qed
qed

lemma zpad_length: "0 < w \<Longrightarrow> n < 10 ^ w \<Longrightarrow> length (zpad w n) = w"
  using digits_length[of w n] by (simp add: zpad_def)

lemma zpad_set: "set (zpad w n) \<subseteq> set ''0123456789''"
  using digits_set[of n] by (auto simp: zpad_def)

lemma zpad_no_colon: "filter (\<lambda>c. c \<noteq> CHR '':'') (zpad w n) = zpad w n"
  using zpad_set[of w n] by (intro filter_True) auto

lemma timestamp_init:
  "timestamp (init a t) =
     zpad 4 (year t) @ ''-'' @ zpad 2 (month t) @ ''-'' @ zpad 2 (day t) @ ''_''
       @ zpad 2 (hour t) @ zpad 2 (minute t)"
  by (simp add: init_def Let_def isoformat_minutes_def zpad_no_colon)

text \<open>
  Claim C8, amended. The snapshot is named \<open><dataset>@<label>_<YYYY-MM-DD_HHMM>\<close>: the
  timestamp holds the zero-padded year, month and day joined by \<open>-\<close>, the separator
  \<open>_\<close> (not \<open>T\<close>) and the zero-padded hour and minute with nothing between them (the
  colon of the ISO form is removed, no \<open>-\<close> is put in its place). It has 15 characters,
  all of them digits, \<open>-\<close> or \<open>_\<close>, so it holds no colon; seconds and microseconds do
  not appear in it.
\<close>

theorem snapshot_name_format:
  assumes "valid_datetime t"
  shows "timestamp (init a t) =
           zpad 4 (year t) @ ''-'' @ zpad 2 (month t) @ ''-'' @ zpad 2 (day t) @ ''_''
             @ zpad 2 (hour t) @ zpad 2 (minute t)
         \<and> length (zpad 4 (year t)) = 4 \<and> length (zpad 2 (month t)) = 2
         \<and> length (zpad 2 (day t)) = 2 \<and> length (zpad 2 (hour t)) = 2
         \<and> length (zpad 2 (minute t)) = 2
         \<and> length (timestamp (init a t)) = 15
         \<and> timestamp (init a t) ! 10 = CHR ''_''
         \<and> set (timestamp (init a t)) \<subseteq> set ''0123456789-_''
         \<and> CHR '':'' \<notin> set (timestamp (init a t))
         \<and> snapshot_name (init a t) = label a @ ''_'' @ timestamp (init a t)
         \<and> last (snapshot_cmd (init a t)) = source a @ ''@'' @ label a @ ''_'' @ timestamp (init a t)"
proof -
  have dm: "days_in_month (year t) (month t) \<le> 31" by (simp add: days_in_month_def)
  from assms dm have b: "year t < 10 ^ 4" "month t < 10 ^ 2" "day t < 10 ^ 2" "hour t < 10 ^ 2"
    "minute t < 10 ^ 2" by (simp_all add: valid_datetime_def)
  have l: "length (zpad 4 (year t)) = 4" "length (zpad 2 (month t)) = 2"
    "length (zpad 2 (day t)) = 2" "length (zpad 2 (hour t)) = 2" "length (zpad 2 (minute t)) = 2"
    using b by (simp_all add: zpad_length)
  have len: "length (timestamp (init a t)) = 15" by (simp add: timestamp_init l)
  define d where "d = zpad 4 (year t) @ ''-'' @ zpad 2 (month t) @ ''-'' @ zpad 2 (day t)"
  have eq: "timestamp (init a t) = d @ CHR ''_'' # (zpad 2 (hour t) @ zpad 2 (minute t))"
    by (simp add: timestamp_init d_def)
  have "length d = 10" by (simp add: d_def l)
  with nth_append_length[of d "CHR ''_''" "zpad 2 (hour t) @ zpad 2 (minute t)"]
  have sep: "timestamp (init a t) ! 10 = CHR ''_''"
    by (simp only: eq)
  have z: "set (zpad w n) \<subseteq> set ''0123456789-_''" for w n
    by (rule order_trans[OF zpad_set]) (simp add: subset_iff)
  have s: "set (timestamp (init a t)) \<subseteq> set ''0123456789-_''"
    by (simp only: timestamp_init set_append Un_subset_iff z) simp
  have "CHR '':'' \<notin> set ''0123456789-_''" by simp
  with s have nc: "CHR '':'' \<notin> set (timestamp (init a t))" by (rule contra_subsetD)
  have n: "snapshot_name (init a t) = label a @ ''_'' @ timestamp (init a t)"
    by (simp add: init_def Let_def)
  have c: "last (snapshot_cmd (init a t)) = source a @ ''@'' @ label a @ ''_'' @ timestamp (init a t)"
    by (simp add: snapshot_cmd_def n) (simp add: init_def Let_def)
  from timestamp_init[of a t] l len sep s nc n c show ?thesis by blast
qed

theorem snapshot_name_format_witness:
  "valid_datetime sample_now
   \<and> timestamp (init sample_args sample_now) = ''2024-03-01_0015''
   \<and> snapshot_name (init sample_args sample_now) = ''yazbak_2024-03-01_0015''
   \<and> snapshot_cmd (init sample_args sample_now)
       = [''zfs'', ''snapshot'', ''-r'', ''pool/ds@yazbak_2024-03-01_0015'']"
proof -
  have v: "valid_datetime sample_now"
    by (simp add: valid_datetime_def sample_now_def days_in_month_def is_leap_def)
  have z: "zpad 4 (year sample_now) = ''2024''" "zpad 2 (month sample_now) = ''03''"
    "zpad 2 (day sample_now) = ''01''" "zpad 2 (hour sample_now) = ''00''"
    "zpad 2 (minute sample_now) = ''15''"
    by (simp_all add: sample_now_def zpad_def digits.simps)
  from snapshot_name_format[OF v, of sample_args]
  have t: "timestamp (init sample_args sample_now) = ''2024-03-01_0015''"
    and n: "snapshot_name (init sample_args sample_now)
      = label sample_args @ ''_'' @ timestamp (init sample_args sample_now)"
    by (simp_all add: z)
  from n t have n': "snapshot_name (init sample_args sample_now) = ''yazbak_2024-03-01_0015''"
    by (simp add: sample_args_def)
  have "snapshot_cmd (init sample_args sample_now)
       = [''zfs'', ''snapshot'', ''-r'', ''pool/ds@yazbak_2024-03-01_0015'']"
    by (simp add: snapshot_cmd_def n') (simp add: init_def Let_def sample_args_def)
  with v t n' show ?thesis by simp
qed

theorem snapshot_name_separator_counterexample:
  "timestamp (init sample_args sample_now) = ''2024-03-01_0015''
   \<and> timestamp (init sample_args sample_now) \<noteq> ''2024-03-01T00-15''
   \<and> last (snapshot_cmd (init sample_args sample_now)) = ''pool/ds@yazbak_2024-03-01_0015''"
  by (simp add: snapshot_cmd_def init_def Let_def sample_args_def sample_now_def
      isoformat_minutes_def zpad_def digits.simps)

subsection \<open>Results on \<open>conditional_snapshot\<close>\<close>

lemmas gate_eval = snapshot_time_def last_stamp_def with_colon_def fromisoformat_def line_end_def
  LF_def is_digit_def decimal_def digit_val_def days_in_month_def is_leap_def Let_def

lemmas clock_eval = dt_sub_def to_microseconds_def ymd2ord_def days_before_year_def
  days_before_month_def days_in_month_def is_leap_def noon_def td_minutes_def td_hours_def

lemma changed_query_verdict: "has_changed (sample_args\<lparr>omit := d\<rparr>) changed_query = Inr True"
  by (simp add: has_changed_def changed_query_def line_tests)

lemma sample_listing:
  "list_yaz_snapshots (sample_args\<lparr>omit := d\<rparr>) ''pool/ds'' (zfs_list [n] [] ''pool/ds'')
     = (if py_find (list_line n) ''pool/ds@yazbak'' \<noteq> -1
        then Inr [takeWhile (\<lambda>c. c \<noteq> TAB) (list_line n)] else Inr [])"
  by (simp add: list_yaz_snapshots_def zfs_list_def listing_def sample_args_def)

text \<open>
  Claim C5, amended. When the queries it makes succeed and the name of the last labelled
  snapshot ends in a timestamp that parses, \<open>conditional_snapshot\<close> decides in this
  order: with transfer-only it skips; else with the verdict "unchanged" and
  no-omit-unchanged not set it skips; else with an omit duration that is set and not
  zero, and a previous labelled snapshot whose timestamp lies less than that duration
  before now, it skips; in every other case it creates the snapshot. An omit duration of
  zero counts as not set (line 220 tests the duration itself), so it never makes the
  gate skip.
\<close>

theorem conditional_snapshot_order:
  "(transfer_only (args self) \<longrightarrow>
      conditional_snapshot self get_res list_res run = Inr (self, False))
   \<and> (\<not> transfer_only (args self) \<and> has_changed (args self) get_res = Inr changed
        \<and> \<not> changed \<and> \<not> no_omit_unchanged (args self) \<longrightarrow>
      conditional_snapshot self get_res list_res run = Inr (self, False))
   \<and> (\<not> transfer_only (args self) \<and> has_changed (args self) get_res = Inr changed
        \<and> (changed \<or> no_omit_unchanged (args self))
        \<and> (omit (args self) = None \<or> omit (args self) = Some 0) \<longrightarrow>
      conditional_snapshot self get_res list_res run
        = map_sum id (Pair self) (snapshot self run))
   \<and> (\<not> transfer_only (args self) \<and> has_changed (args self) get_res = Inr changed
        \<and> (changed \<or> no_omit_unchanged (args self))
        \<and> omit (args self) = Some d \<and> d \<noteq> 0
        \<and> list_yaz_snapshots (args self) (source (args self)) (list_res (source (args self)))
            = Inr [] \<longrightarrow>
      conditional_snapshot self get_res list_res run
        = map_sum id (Pair (self\<lparr>snaps := []\<rparr>)) (snapshot (self\<lparr>snaps := []\<rparr>) run))
   \<and> (\<not> transfer_only (args self) \<and> has_changed (args self) get_res = Inr changed
        \<and> (changed \<or> no_omit_unchanged (args self))
        \<and> omit (args self) = Some d \<and> d \<noteq> 0
        \<and> list_yaz_snapshots (args self) (source (args self)) (list_res (source (args self)))
            = Inr l
        \<and> l \<noteq> [] \<and> snapshot_time (last l) = Inr t \<longrightarrow>
      conditional_snapshot self get_res list_res run
        = (if dt_sub (now self) t < d then Inr (self\<lparr>snaps := l\<rparr>, False)
           else map_sum id (Pair (self\<lparr>snaps := l\<rparr>)) (snapshot (self\<lparr>snaps := l\<rparr>) run)))"
proof (intro conjI impI)
  assume "transfer_only (args self)"
  then show "conditional_snapshot self get_res list_res run = Inr (self, False)"
    by (simp add: conditional_snapshot_def)
next
  assume "\<not> transfer_only (args self) \<and> has_changed (args self) get_res = Inr changed
        \<and> \<not> changed \<and> \<not> no_omit_unchanged (args self)"
  then show "conditional_snapshot self get_res list_res run = Inr (self, False)"
    by (simp add: conditional_snapshot_def)
next
  assume "\<not> transfer_only (args self) \<and> has_changed (args self) get_res = Inr changed
        \<and> (changed \<or> no_omit_unchanged (args self))
        \<and> (omit (args self) = None \<or> omit (args self) = Some 0)"
  then show "conditional_snapshot self get_res list_res run
        = map_sum id (Pair self) (snapshot self run)"
    by (auto simp: conditional_snapshot_def omit_set_def)
next
  assume "\<not> transfer_only (args self) \<and> has_changed (args self) get_res = Inr changed
        \<and> (changed \<or> no_omit_unchanged (args self))
        \<and> omit (args self) = Some d \<and> d \<noteq> 0
        \<and> list_yaz_snapshots (args self) (source (args self)) (list_res (source (args self)))
            = Inr []"
  then show "conditional_snapshot self get_res list_res run
        = map_sum id (Pair (self\<lparr>snaps := []\<rparr>)) (snapshot (self\<lparr>snaps := []\<rparr>) run)"
    by (auto simp: conditional_snapshot_def omit_set_def Let_def)
next
  assume "\<not> transfer_only (args self) \<and> has_changed (args self) get_res = Inr changed
        \<and> (changed \<or> no_omit_unchanged (args self))
        \<and> omit (args self) = Some d \<and> d \<noteq> 0
        \<and> list_yaz_snapshots (args self) (source (args self)) (list_res (source (args self)))
            = Inr l
        \<and> l \<noteq> [] \<and> snapshot_time (last l) = Inr t"
  then show "conditional_snapshot self get_res list_res run
        = (if dt_sub (now self) t < d then Inr (self\<lparr>snaps := l\<rparr>, False)
           else map_sum id (Pair (self\<lparr>snaps := l\<rparr>)) (snapshot (self\<lparr>snaps := l\<rparr>) run))"
    by (auto simp: conditional_snapshot_def omit_set_def Let_def)
qed

theorem conditional_snapshot_order_witness:
  "has_changed sample_args changed_query = Inr True
   \<and> omit sample_args = Some (td_hours 1)
   \<and> snapshot_time ''pool/ds@yazbak_2024-03-02_1130''
       = Inr \<lparr>year = 2024, month = 3, day = 2, hour = 11, minute = 30, second = 0, microsecond = 0\<rparr>
   \<and> dt_sub noon \<lparr>year = 2024, month = 3, day = 2, hour = 11, minute = 30, second = 0,
        microsecond = 0\<rparr> = td_minutes 30
   \<and> conditional_snapshot (init sample_args noon) changed_query
        (zfs_list [''pool/ds@yazbak_2024-03-02_1130''] []) succeeding
       = Inr ((init sample_args noon)\<lparr>snaps := [''pool/ds@yazbak_2024-03-02_1130'']\<rparr>, False)
   \<and> snapshot_time ''pool/ds@yazbak_2024-03-02_1030''
       = Inr \<lparr>year = 2024, month = 3, day = 2, hour = 10, minute = 30, second = 0, microsecond = 0\<rparr>
   \<and> dt_sub noon \<lparr>year = 2024, month = 3, day = 2, hour = 10, minute = 30, second = 0,
        microsecond = 0\<rparr> = td_minutes 90
   \<and> conditional_snapshot (init sample_args noon) changed_query
        (zfs_list [''pool/ds@yazbak_2024-03-02_1030''] []) succeeding
       = Inr ((init sample_args noon)\<lparr>snaps := [''pool/ds@yazbak_2024-03-02_1030'']\<rparr>, True)"
proof -
  have a: "args (init sample_args noon) = sample_args" "now (init sample_args noon) = noon"
    by (simp_all add: init_def Let_def)
  have c: "has_changed sample_args changed_query = Inr True"
    using changed_query_verdict[of "Some (td_hours 1)"] by (simp add: sample_args_def)
  have f: "\<not> transfer_only sample_args" "omit sample_args = Some (td_hours 1)"
    "td_hours 1 \<noteq> 0" "source sample_args = ''pool/ds''"
    by (simp_all add: sample_args_def td_hours_def)
  have l1: "list_yaz_snapshots sample_args ''pool/ds''
      (zfs_list [''pool/ds@yazbak_2024-03-02_1130''] [] ''pool/ds'')
      = Inr [''pool/ds@yazbak_2024-03-02_1130'']"
    and l2: "list_yaz_snapshots sample_args ''pool/ds''
      (zfs_list [''pool/ds@yazbak_2024-03-02_1030''] [] ''pool/ds'')
      = Inr [''pool/ds@yazbak_2024-03-02_1030'']"
    using sample_listing[of "Some (td_hours 1)"]
    by (simp_all add: sample_args_def list_line_def TAB_def)
  have t1: "snapshot_time ''pool/ds@yazbak_2024-03-02_1130''
       = Inr \<lparr>year = 2024, month = 3, day = 2, hour = 11, minute = 30, second = 0, microsecond = 0\<rparr>"
    and t2: "snapshot_time ''pool/ds@yazbak_2024-03-02_1030''
       = Inr \<lparr>year = 2024, month = 3, day = 2, hour = 10, minute = 30, second = 0, microsecond = 0\<rparr>"
    by (simp_all add: gate_eval)
  have d1: "dt_sub noon \<lparr>year = 2024, month = 3, day = 2, hour = 11, minute = 30, second = 0,
        microsecond = 0\<rparr> = td_minutes 30"
    and d2: "dt_sub noon \<lparr>year = 2024, month = 3, day = 2, hour = 10, minute = 30, second = 0,
        microsecond = 0\<rparr> = td_minutes 90"
    by (simp_all add: clock_eval)
  have r: "snapshot s succeeding = Inr True" for s
    by (simp add: snapshot_def succeeding_def)
  from conditional_snapshot_order[of "init sample_args noon" changed_query
      "zfs_list [''pool/ds@yazbak_2024-03-02_1130''] []" succeeding True "td_hours 1"
      "[''pool/ds@yazbak_2024-03-02_1130'']"
      "\<lparr>year = 2024, month = 3, day = 2, hour = 11, minute = 30, second = 0, microsecond = 0\<rparr>"]
  have s1: "conditional_snapshot (init sample_args noon) changed_query
        (zfs_list [''pool/ds@yazbak_2024-03-02_1130''] []) succeeding
       = Inr ((init sample_args noon)\<lparr>snaps := [''pool/ds@yazbak_2024-03-02_1130'']\<rparr>, False)"
    by (simp add: a c f l1 t1 d1) (simp add: td_minutes_def td_hours_def)
  from conditional_snapshot_order[of "init sample_args noon" changed_query
      "zfs_list [''pool/ds@yazbak_2024-03-02_1030''] []" succeeding True "td_hours 1"
      "[''pool/ds@yazbak_2024-03-02_1030'']"
      "\<lparr>year = 2024, month = 3, day = 2, hour = 10, minute = 30, second = 0, microsecond = 0\<rparr>"]
  have s2: "conditional_snapshot (init sample_args noon) changed_query
        (zfs_list [''pool/ds@yazbak_2024-03-02_1030''] []) succeeding
       = Inr ((init sample_args noon)\<lparr>snaps := [''pool/ds@yazbak_2024-03-02_1030'']\<rparr>, True)"
    by (simp add: a c f l2 t2 d2 r) (simp add: td_minutes_def td_hours_def)
  from c f(2) t1 d1 s1 t2 d2 s2 show ?thesis by simp
qed

theorem conditional_snapshot_zero_omit_counterexample:
  "get_timedelta ''0m'' = Inr 0
   \<and> snapshot_time ''pool/ds@yazbak_2024-03-02_1230''
       = Inr \<lparr>year = 2024, month = 3, day = 2, hour = 12, minute = 30, second = 0, microsecond = 0\<rparr>
   \<and> dt_sub noon \<lparr>year = 2024, month = 3, day = 2, hour = 12, minute = 30, second = 0,
        microsecond = 0\<rparr> = td_minutes (- 30)
   \<and> td_minutes (- 30) < 0
   \<and> conditional_snapshot (init (sample_args\<lparr>omit := Some 0\<rparr>) noon) changed_query
        (zfs_list [''pool/ds@yazbak_2024-03-02_1230''] []) succeeding
       = Inr (init (sample_args\<lparr>omit := Some 0\<rparr>) noon, True)"
proof -
  have g: "get_timedelta ''0m'' = Inr 0" by (simp add: timedelta_eval)
  have t: "snapshot_time ''pool/ds@yazbak_2024-03-02_1230''
       = Inr \<lparr>year = 2024, month = 3, day = 2, hour = 12, minute = 30, second = 0, microsecond = 0\<rparr>"
    by (simp add: gate_eval)
  have d: "dt_sub noon \<lparr>year = 2024, month = 3, day = 2, hour = 12, minute = 30, second = 0,
        microsecond = 0\<rparr> = td_minutes (- 30)"
    by (simp add: clock_eval)
  have n: "td_minutes (- 30) < 0" by (simp add: td_minutes_def)
  have "conditional_snapshot (init (sample_args\<lparr>omit := Some 0\<rparr>) noon) changed_query
        (zfs_list [''pool/ds@yazbak_2024-03-02_1230''] []) succeeding
       = Inr (init (sample_args\<lparr>omit := Some 0\<rparr>) noon, True)"
    using changed_query_verdict[of "Some 0"]
    by (simp add: conditional_snapshot_def init_def Let_def omit_set_def snapshot_def succeeding_def)
       (simp add: sample_args_def)
  with g t d n show ?thesis by simp
qed

end
